theory Spec2Isabelle
  imports Main
begin

section \<open>Data model (src/src/App.tsx, lines 6-17)\<close>

text \<open>
  A JavaScript string is modelled as a \<open>string\<close> holding the bytes of its UTF-8 text, the
  way the source file stores its literals. The only character of the source outside ASCII
  that the model needs is the left single quotation mark U+2018 of the Uzbek texts
  (bytes E2 80 98), called \<open>okina\<close> below. Template literals are concatenation.

  \<open>NewUser\<close> is the interface of lines 12-15. \<open>User\<close> (lines 6-10) has the same two fields
  and the identifier, so it is the record extension of \<open>NewUser\<close> by \<open>id'\<close> (the source's
  \<open>id\<close>, primed because \<open>id\<close> is the identity function of HOL); this is also the type
  \<open>{ id: string } & NewUser\<close> of line 32.
\<close>

record NewUser =
  name :: string
  email :: string

record User = NewUser +
  id' :: string

text \<open>The \<open>Error\<close> of a rejected promise; the source reads only its \<open>message\<close>.\<close>

record Error =
  message :: string

definition okina :: string where
  "okina = [CHR 0xE2, CHR 0x80, CHR 0x98]"

definition API_URL :: string where
  "API_URL = ''https://68466fef7dbda7ee7aaf060c.mockapi.io/user''"

section \<open>The collection client (lines 19-40)\<close>

text \<open>
  One call of axios is a \<open>request\<close>: the verb, the URL and the JSON body, if any. The
  transport itself (axios, the network and the remote mock API) is not code of the
  repository: every client function takes it as the parameter \<open>axios\<close>, which maps the
  request to the outcome of the awaited promise, \<open>Inl\<close> the \<open>Error\<close> of a rejection and
  \<open>Inr\<close> the \<open>data\<close> of the response. Each function issues exactly one request, named
  \<open>..._request\<close>, and an \<open>await\<close> that rejects makes the function reject with the same
  error.
\<close>

datatype http_verb = GET | POST | PUT | DELETE

record request =
  verb :: http_verb
  url :: string
  body :: "NewUser option"

definition fetchUsers_request :: request where
  "fetchUsers_request = \<lparr>verb = GET, url = API_URL, body = None\<rparr>"

definition fetchUsers :: "(request \<Rightarrow> Error + 'd) \<Rightarrow> Error + 'd" where
  "fetchUsers axios =
     (case axios fetchUsers_request of Inl e \<Rightarrow> Inl e | Inr d \<Rightarrow> Inr d)"

definition addUser_request :: "NewUser \<Rightarrow> request" where
  "addUser_request newUser' = \<lparr>verb = POST, url = API_URL, body = Some newUser'\<rparr>"

definition addUser :: "(request \<Rightarrow> Error + 'd) \<Rightarrow> NewUser \<Rightarrow> Error + 'd" where
  "addUser axios newUser' =
     (case axios (addUser_request newUser') of Inl e \<Rightarrow> Inl e | Inr d \<Rightarrow> Inr d)"

text \<open>
  \<open>updateUser\<close> destructures its argument into \<open>id\<close> and the rest \<open>user\<close>, which is the
  body of the PUT to \<open>`${API_URL}/${id}`\<close>.
\<close>

definition updateUser_request :: "User \<Rightarrow> request" where
  "updateUser_request v =
     \<lparr>verb = PUT, url = API_URL @ ''/'' @ id' v,
      body = Some \<lparr>name = name v, email = email v\<rparr>\<rparr>"

definition updateUser :: "(request \<Rightarrow> Error + 'd) \<Rightarrow> User \<Rightarrow> Error + 'd" where
  "updateUser axios v =
     (case axios (updateUser_request v) of Inl e \<Rightarrow> Inl e | Inr d \<Rightarrow> Inr d)"

text \<open>\<open>deleteUser\<close> awaits the DELETE, drops the response and returns its argument.\<close>

definition deleteUser_request :: "string \<Rightarrow> request" where
  "deleteUser_request i = \<lparr>verb = DELETE, url = API_URL @ ''/'' @ i, body = None\<rparr>"

definition deleteUser :: "(request \<Rightarrow> Error + 'd) \<Rightarrow> string \<Rightarrow> Error + string" where
  "deleteUser axios i =
     (case axios (deleteUser_request i) of Inl e \<Rightarrow> Inl e | Inr d \<Rightarrow> Inr i)"

section \<open>The state of the component (lines 43-56)\<close>

text \<open>
  The four \<open>useState\<close> cells, the three values the component destructures from
  \<open>useQuery\<close> (\<open>data\<close> under its local name \<open>users\<close>, \<open>isLoading\<close>, \<open>error\<close>) and the two
  \<open>isPending\<close> flags it reads from the mutations (lines 238 and 241).
  \<open>deleteMutation.isPending\<close> is never read; the source keeps its own marker
  \<open>deletingId\<close>.

  The last two fields are not read by the component: they are the part of the query's
  own state that decides which answer of the server reaches \<open>users\<close>. The fetches of the
  query are numbered from 0 in the order they start; \<open>fetchesStarted\<close> counts them and
  \<open>currentFetch\<close> is the one in flight whose answer the query is waiting for, if any.
\<close>

record app_state =
  newUser :: NewUser
  editingUser :: "User option"
  errorMessage :: "string option"
  deletingId :: "string option"
  users :: "User list option"
  isLoading :: bool
  error :: "Error option"
  addMutation_isPending :: bool
  updateMutation_isPending :: bool
  fetchesStarted :: nat
  currentFetch :: "nat option"

text \<open>
  What a handler does besides updating the state: the network requests it starts and the
  SweetAlert dialogs it opens (title, text and icon of the options object).
\<close>

record swal =
  swal_title :: string
  swal_text :: string
  swal_icon :: string

datatype effect = Http request | SwalFire swal

fun requests :: "effect list \<Rightarrow> request list" where
  "requests [] = []"
| "requests (Http r # fx) = r # requests fx"
| "requests (SwalFire d # fx) = requests fx"

definition emptyForm :: NewUser where
  "emptyForm = \<lparr>name = '''', email = ''''\<rparr>"

text \<open>
  The state at mount: the initial values of lines 44-47, and the first fetch (number 0)
  running.
\<close>

definition initial_state :: app_state where
  "initial_state =
     \<lparr>newUser = emptyForm, editingUser = None, errorMessage = None, deletingId = None,
      users = None, isLoading = True, error = None,
      addMutation_isPending = False, updateMutation_isPending = False,
      fetchesStarted = 1, currentFetch = Some 0\<rparr>"

section \<open>The react-query calls of the component\<close>

text \<open>
  react-query is a dependency, not code of the repository. The model keeps to the part of
  its contract that the component relies on:
  \<^item> a fetch of the query calls its \<open>queryFn\<close>, \<open>fetchUsers\<close>, which sends one GET; while
    the query has no data, starting a fetch shows the loading state and clears the
    query's error. (When a fetch rejects, the library calls \<open>fetchUsers\<close> again a few
    times before it lets the fetch settle as rejected; these repeated GETs are not
    listed among the effects.)
  \<^item> \<open>invalidateQueries({ queryKey: ["users"] })\<close> marks the mounted query stale and
    refetches it: a fetch in flight is cancelled, so that its answer will be dropped,
    and a new fetch starts. Only while the query has no data yet and a fetch is in
    flight does the query keep waiting for that fetch instead. The cached data stay
    in place until a fetch resolves;
  \<^item> the answer of the fetch the query is waiting for settles it: a fetch that resolves
    replaces the cached data by the response as a whole and clears the query's error; a
    fetch that rejects sets the error and keeps the data. The answer of any other fetch
    changes nothing;
  \<^item> \<open>mutate(v)\<close> runs the \<open>mutationFn\<close> on \<open>v\<close> once (mutations are not retried) and makes
    \<open>isPending\<close> true; when the promise settles \<open>isPending\<close> is false again and \<open>onSuccess\<close>
    or \<open>onError\<close> of the options runs.
\<close>

definition startFetch :: "app_state \<Rightarrow> app_state \<times> effect list" where
  "startFetch s =
     ((if users s = None then s\<lparr>isLoading := True, error := None\<rparr> else s)
        \<lparr>fetchesStarted := Suc (fetchesStarted s), currentFetch := Some (fetchesStarted s)\<rparr>,
      [Http fetchUsers_request])"

definition invalidateQueries_users :: "app_state \<Rightarrow> app_state \<times> effect list" where
  "invalidateQueries_users s =
     (case currentFetch s of
        Some k \<Rightarrow> if users s = None then (s, []) else startFetch s
      | None \<Rightarrow> startFetch s)"

definition query_settled :: "nat \<Rightarrow> Error + User list \<Rightarrow> app_state \<Rightarrow> app_state" where
  "query_settled k r s =
     (if currentFetch s = Some k
      then (case r of
              Inr d \<Rightarrow>
                s\<lparr>users := Some d, isLoading := False, error := None, currentFetch := None\<rparr>
            | Inl e \<Rightarrow> s\<lparr>isLoading := False, error := Some e, currentFetch := None\<rparr>)
      else s)"

subsection \<open>addMutation (lines 58-74)\<close>

definition addMutation_onSuccess :: "app_state \<Rightarrow> app_state \<times> effect list" where
  "addMutation_onSuccess s =
     (let (s1, fx) = invalidateQueries_users s
      in (s1\<lparr>errorMessage := None\<rparr>,
          fx @
          [SwalFire \<lparr>swal_title = ''Muvaffaqiyat!'',
                     swal_text = ''Foydalanuvchi muvaffaqiyatli qo'' @ okina @ ''shildi'',
                     swal_icon = ''success''\<rparr>]))"

definition addMutation_onError :: "Error \<Rightarrow> app_state \<Rightarrow> app_state \<times> effect list" where
  "addMutation_onError e s =
     (s\<lparr>errorMessage := Some (''Qo'' @ okina @ ''shishda xato: '' @ message e)\<rparr>, [])"

definition addMutation_mutate :: "NewUser \<Rightarrow> app_state \<Rightarrow> app_state \<times> effect list" where
  "addMutation_mutate v s = (s\<lparr>addMutation_isPending := True\<rparr>, [Http (addUser_request v)])"

definition addMutation_settled :: "Error + User \<Rightarrow> app_state \<Rightarrow> app_state \<times> effect list" where
  "addMutation_settled r s =
     (if addMutation_isPending s
      then (case r of
              Inr d \<Rightarrow> addMutation_onSuccess (s\<lparr>addMutation_isPending := False\<rparr>)
            | Inl e \<Rightarrow> addMutation_onError e (s\<lparr>addMutation_isPending := False\<rparr>))
      else (s, []))"

subsection \<open>updateMutation (lines 76-93)\<close>

definition updateMutation_onSuccess :: "app_state \<Rightarrow> app_state \<times> effect list" where
  "updateMutation_onSuccess s =
     (let (s1, fx) = invalidateQueries_users s
      in (s1\<lparr>editingUser := None, errorMessage := None\<rparr>,
          fx @
          [SwalFire \<lparr>swal_title = ''Muvaffaqiyat!'',
                     swal_text = ''Foydalanuvchi muvaffaqiyatli yangilandi'',
                     swal_icon = ''success''\<rparr>]))"

definition updateMutation_onError :: "Error \<Rightarrow> app_state \<Rightarrow> app_state \<times> effect list" where
  "updateMutation_onError e s =
     (s\<lparr>errorMessage := Some (''Yangilashda xato: '' @ message e)\<rparr>, [])"

definition updateMutation_mutate :: "User \<Rightarrow> app_state \<Rightarrow> app_state \<times> effect list" where
  "updateMutation_mutate v s =
     (s\<lparr>updateMutation_isPending := True\<rparr>, [Http (updateUser_request v)])"

definition updateMutation_settled ::
  "Error + User \<Rightarrow> app_state \<Rightarrow> app_state \<times> effect list" where
  "updateMutation_settled r s =
     (if updateMutation_isPending s
      then (case r of
              Inr d \<Rightarrow> updateMutation_onSuccess (s\<lparr>updateMutation_isPending := False\<rparr>)
            | Inl e \<Rightarrow> updateMutation_onError e (s\<lparr>updateMutation_isPending := False\<rparr>))
      else (s, []))"

subsection \<open>deleteMutation (lines 95-113)\<close>

definition deleteMutation_onSuccess :: "app_state \<Rightarrow> app_state \<times> effect list" where
  "deleteMutation_onSuccess s =
     (let (s1, fx) = invalidateQueries_users s
      in (s1\<lparr>errorMessage := None, deletingId := None\<rparr>,
          fx @
          [SwalFire \<lparr>swal_title = ''Muvaffaqiyat!'',
                     swal_text = ''Foydalanuvchi muvaffaqiyatli o'' @ okina @ ''chirildi'',
                     swal_icon = ''success''\<rparr>]))"

definition deleteMutation_onError :: "Error \<Rightarrow> app_state \<Rightarrow> app_state \<times> effect list" where
  "deleteMutation_onError e s =
     (s\<lparr>errorMessage := Some (''O'' @ okina @ ''chirishda xato: '' @ message e),
        deletingId := None\<rparr>, [])"

definition deleteMutation_mutate :: "string \<Rightarrow> app_state \<Rightarrow> app_state \<times> effect list" where
  "deleteMutation_mutate i s = (s, [Http (deleteUser_request i)])"

text \<open>
  The state has no pending flag for deletions (the source reads none), so the model lets a
  deletion settle in every state: it has the runs of the program and more.
\<close>

definition deleteMutation_settled ::
  "Error + string \<Rightarrow> app_state \<Rightarrow> app_state \<times> effect list" where
  "deleteMutation_settled r s =
     (case r of
        Inr d \<Rightarrow> deleteMutation_onSuccess s
      | Inl e \<Rightarrow> deleteMutation_onError e s)"

section \<open>The handlers (lines 115-153)\<close>

definition handleAddOrUpdate :: "app_state \<Rightarrow> app_state \<times> effect list" where
  "handleAddOrUpdate s =
     (case editingUser s of
        Some u \<Rightarrow>
          (let (s1, fx) =
                 updateMutation_mutate
                   \<lparr>name = name (newUser s), email = email (newUser s), id' = id' u\<rparr> s
           in (s1\<lparr>newUser := emptyForm\<rparr>, fx))
      | None \<Rightarrow>
          (let (s1, fx) = addMutation_mutate (newUser s) s
           in (s1\<lparr>newUser := emptyForm\<rparr>, fx)))"

definition handleEdit :: "User \<Rightarrow> app_state \<Rightarrow> app_state" where
  "handleEdit u s =
     s\<lparr>editingUser := Some u, newUser := \<lparr>name = name u, email = email u\<rparr>,
       errorMessage := None\<rparr>"

definition handleClearForm :: "app_state \<Rightarrow> app_state" where
  "handleClearForm s = s\<lparr>newUser := emptyForm, editingUser := None, errorMessage := None\<rparr>"

text \<open>
  \<open>handleDelete\<close> opens the confirmation dialog and continues when its promise resolves;
  \<open>isConfirmed\<close> is the field of the result that the continuation reads.
\<close>

definition confirmDialog :: swal where
  "confirmDialog =
     \<lparr>swal_title = ''O'' @ okina @ ''chirishni tasdiqlang'',
      swal_text = ''Haqiqatan ham ushbu foydalanuvchini o'' @ okina @ ''chirmoqchimisiz?'',
      swal_icon = ''warning''\<rparr>"

definition handleDelete :: "string \<Rightarrow> bool \<Rightarrow> app_state \<Rightarrow> app_state \<times> effect list" where
  "handleDelete i isConfirmed s =
     (if isConfirmed
      then (let (s1, fx) = deleteMutation_mutate i (s\<lparr>deletingId := Some i\<rparr>)
            in (s1, SwalFire confirmDialog # fx))
      else (s, [SwalFire confirmDialog]))"

text \<open>The two \<open>onChange\<close> handlers of the inputs (lines 213 and 230).\<close>

definition onChange_name :: "string \<Rightarrow> app_state \<Rightarrow> app_state" where
  "onChange_name v s = s\<lparr>newUser := (newUser s)\<lparr>name := v\<rparr>\<rparr>"

definition onChange_email :: "string \<Rightarrow> app_state \<Rightarrow> app_state" where
  "onChange_email v s = s\<lparr>newUser := (newUser s)\<lparr>email := v\<rparr>\<rparr>"

section \<open>What is rendered (lines 155-334)\<close>

text \<open>
  Of the JSX, the model keeps what depends on the state: the two early returns, the
  heading, the error banner (rendered when \<open>errorMessage\<close> is truthy: neither \<open>null\<close> nor
  the empty string), the values of the two inputs, the \<open>disabled\<close> attribute of the
  submit button, and one row per cached user with the \<open>disabled\<close> attribute of its delete
  button. \<open>users?.map\<close> renders no row while the data are undefined.
\<close>

record row =
  row_user :: User
  delete_disabled :: bool

record main_view =
  heading :: string
  banner :: "string option"
  name_value :: string
  email_value :: string
  submit_disabled :: bool
  rows :: "row list"

datatype view = LoadingView | ErrorView string | MainView main_view

definition render :: "app_state \<Rightarrow> view" where
  "render s =
     (if isLoading s then LoadingView
      else case error s of
        Some e \<Rightarrow> ErrorView (''Xatolik: '' @ message e)
      | None \<Rightarrow>
          MainView
            \<lparr>heading =
               (case editingUser s of
                  Some u \<Rightarrow> ''Foydalanuvchini tahrirlash''
                | None \<Rightarrow> ''Foydalanuvchi qo'' @ okina @ ''shish''),
             banner =
               (case errorMessage s of
                  Some m \<Rightarrow> if m \<noteq> '''' then Some m else None
                | None \<Rightarrow> None),
             name_value = name (newUser s),
             email_value = email (newUser s),
             submit_disabled = (addMutation_isPending s \<or> updateMutation_isPending s),
             rows =
               (case users s of
                  Some us \<Rightarrow>
                    map (\<lambda>u. \<lparr>row_user = u, delete_disabled = (deletingId s = Some (id' u))\<rparr>) us
                | None \<Rightarrow> [])\<rparr>)"

section \<open>Events\<close>

text \<open>
  The component is single-threaded and event-driven: a run is a sequence of events, each
  handled to completion. The user's events are typing into an input, submitting the form,
  the edit button of a row, the clear button, and the delete button of a row together
  with the answer given to its dialog. The other events are promises settling: the
  promise of \<open>fetchUsers\<close> for the fetch with the given number, or the promise of the
  \<open>mutationFn\<close> of one of the three mutations; the event carries what the promise settled
  with, \<open>Inl\<close> the error of a rejection.

  A submit button that is \<open>disabled\<close> submits nothing, so \<open>Submit\<close> changes nothing while
  a create or an update is pending. The other attributes that restrict the user
  (\<open>required\<close>, \<open>type="email"\<close>, the \<open>disabled\<close> of a delete button, buttons existing only
  for cached users and only in the main view) are not modelled: the model has the runs
  of the program and more.
\<close>

datatype event =
    ChangeName string
  | ChangeEmail string
  | Submit
  | Edit User
  | ClearForm
  | Delete string bool
  | AddSettled "Error + User"
  | UpdateSettled "Error + User"
  | DeleteSettled "Error + string"
  | FetchSettled nat "Error + User list"

fun step :: "event \<Rightarrow> app_state \<Rightarrow> app_state \<times> effect list" where
  "step (ChangeName v) s = (onChange_name v s, [])"
| "step (ChangeEmail v) s = (onChange_email v s, [])"
| "step Submit s =
     (if addMutation_isPending s \<or> updateMutation_isPending s then (s, [])
      else handleAddOrUpdate s)"
| "step (Edit u) s = (handleEdit u s, [])"
| "step ClearForm s = (handleClearForm s, [])"
| "step (Delete i isConfirmed) s = handleDelete i isConfirmed s"
| "step (AddSettled r) s = addMutation_settled r s"
| "step (UpdateSettled r) s = updateMutation_settled r s"
| "step (DeleteSettled r) s = deleteMutation_settled r s"
| "step (FetchSettled k r) s = (query_settled k r s, [])"

fun run :: "event list \<Rightarrow> app_state \<Rightarrow> app_state \<times> effect list" where
  "run [] s = (s, [])"
| "run (e # es) s =
     (let (s1, fx1) = step e s; (s2, fx2) = run es s1 in (s2, fx1 @ fx2))"

text \<open>
  The states of the view: a create or an update is \<open>submitting\<close> while its mutation is
  pending, and the view is \<open>idle\<close> when nothing is submitting and no deletion is marked.
\<close>

definition submitting :: "app_state \<Rightarrow> bool" where
  "submitting s \<longleftrightarrow> addMutation_isPending s \<or> updateMutation_isPending s"

definition idle :: "app_state \<Rightarrow> bool" where
  "idle s \<longleftrightarrow> \<not> submitting s \<and> deletingId s = None"

definition state_after :: "event list \<Rightarrow> app_state \<Rightarrow> app_state" where
  "state_after evs s = fst (run evs s)"

definition requests_of :: "event list \<Rightarrow> app_state \<Rightarrow> request list" where
  "requests_of evs s = requests (snd (run evs s))"

text \<open>The lists that the fetches of a run resolved with, in the order of arrival.\<close>

fun fetched :: "event list \<Rightarrow> User list list" where
  "fetched [] = []"
| "fetched (FetchSettled k (Inr d) # evs) = d # fetched evs"
| "fetched (e # evs) = fetched evs"

fun is_typing :: "event \<Rightarrow> bool" where
  "is_typing (ChangeName v) = True"
| "is_typing (ChangeEmail v) = True"
| "is_typing e = False"

text \<open>
  The user's events that end an editing selection: clearing the form, submitting it, and
  choosing a record (which starts another selection).
\<close>

fun ends_selection :: "event \<Rightarrow> bool" where
  "ends_selection ClearForm = True"
| "ends_selection Submit = True"
| "ends_selection (Edit u) = True"
| "ends_selection e = False"

text \<open>
  Kinds of events: the ones that put text into the form (typing, and choosing a record),
  the ones that settle the create, the update or a fetch, and the ones that may change
  the editing selection (clearing the form, choosing a record, an update that succeeds).
\<close>

fun fills_form :: "event \<Rightarrow> bool" where
  "fills_form (ChangeName v) = True"
| "fills_form (ChangeEmail v) = True"
| "fills_form (Edit u) = True"
| "fills_form e = False"

fun settles_create :: "event \<Rightarrow> bool" where
  "settles_create (AddSettled r) = True"
| "settles_create e = False"

fun settles_update :: "event \<Rightarrow> bool" where
  "settles_update (UpdateSettled r) = True"
| "settles_update e = False"

fun settles_fetch :: "event \<Rightarrow> bool" where
  "settles_fetch (FetchSettled k r) = True"
| "settles_fetch e = False"

fun changes_selection :: "event \<Rightarrow> bool" where
  "changes_selection ClearForm = True"
| "changes_selection (Edit u) = True"
| "changes_selection (UpdateSettled (Inr d)) = True"
| "changes_selection e = False"

subsection \<open>Example states\<close>

definition ann :: User where
  "ann = \<lparr>name = ''Ann'', email = ''ann@x.com'', id' = ''1''\<rparr>"

definition bob :: User where
  "bob = \<lparr>name = ''Bob'', email = ''bob@x.com'', id' = ''42''\<rparr>"

text \<open>The first fetch has returned two records; then the user has typed into the form.\<close>

definition loaded_state :: app_state where
  "loaded_state = state_after [FetchSettled 0 (Inr [ann, bob])] initial_state"

definition typed_state :: app_state where
  "typed_state = state_after [ChangeName ''Ann'', ChangeEmail ''ann@x.com''] loaded_state"

definition network_error :: Error where
  "network_error = \<lparr>message = ''Network Error''\<rparr>"

definition not_found :: Error where
  "not_found = \<lparr>message = ''Request failed with status code 404''\<rparr>"

text \<open>The record \<open>ann\<close> after its name was edited, and a record as the server creates it.\<close>

definition anna :: User where
  "anna = \<lparr>name = ''Anna'', email = ''ann@x.com'', id' = ''1''\<rparr>"

definition ann_created :: User where
  "ann_created = \<lparr>name = ''Ann'', email = ''ann@x.com'', id' = ''43''\<rparr>"

text \<open>A second record with the identifier of \<open>ann\<close>.\<close>

definition ann_twin :: User where
  "ann_twin = \<lparr>name = ''Ann B'', email = ''annb@x.com'', id' = ''1''\<rparr>"

text \<open>A create has failed, and the user has typed the values again and resubmitted.\<close>

definition resubmitted_state :: app_state where
  "resubmitted_state =
     state_after
       [Submit, AddSettled (Inl network_error),
        ChangeName ''Ann'', ChangeEmail ''ann@x.com'', Submit] typed_state"

text \<open>A transport whose every request resolves, with no data.\<close>

definition resolves :: "request \<Rightarrow> Error + unit" where
  "resolves r = Inr ()"

text \<open>
  A transport that answers the GET of the collection with the list \<open>us\<close> and rejects every
  other request.
\<close>

definition serves :: "User list \<Rightarrow> request \<Rightarrow> Error + User list" where
  "serves us r = (if verb r = GET \<and> url r = API_URL then Inr us else Inl not_found)"

section \<open>Properties\<close>

lemmas handler_defs =
  addMutation_onSuccess_def addMutation_onError_def addMutation_mutate_def
  addMutation_settled_def
  updateMutation_onSuccess_def updateMutation_onError_def updateMutation_mutate_def
  updateMutation_settled_def
  deleteMutation_onSuccess_def deleteMutation_onError_def deleteMutation_mutate_def
  deleteMutation_settled_def
  handleAddOrUpdate_def handleEdit_def handleClearForm_def handleDelete_def
  onChange_name_def onChange_email_def query_settled_def split_beta

lemmas fetch_defs = invalidateQueries_users_def startFetch_def

lemmas run_defs = state_after_def requests_of_def submitting_def

lemmas example_defs =
  loaded_state_def typed_state_def initial_state_def ann_def bob_def network_error_def
  emptyForm_def anna_def ann_created_def not_found_def resubmitted_state_def ann_twin_def

lemma state_after_Nil: "state_after [] s = s"
  by (simp add: state_after_def)

lemma state_after_Cons: "state_after (e # evs) s = state_after evs (fst (step e s))"
  by (simp add: state_after_def split_beta)

lemma state_after_append:
  "state_after (evs @ evs') s = state_after evs' (state_after evs s)"
  by (induction evs arbitrary: s) (simp_all add: state_after_Nil state_after_Cons)

text \<open>Invalidating the query touches only the query's own state.\<close>

lemma invalidate_frame:
  "newUser (fst (invalidateQueries_users s)) = newUser s"
  "editingUser (fst (invalidateQueries_users s)) = editingUser s"
  "errorMessage (fst (invalidateQueries_users s)) = errorMessage s"
  "deletingId (fst (invalidateQueries_users s)) = deletingId s"
  "users (fst (invalidateQueries_users s)) = users s"
  "addMutation_isPending (fst (invalidateQueries_users s)) = addMutation_isPending s"
  "updateMutation_isPending (fst (invalidateQueries_users s)) = updateMutation_isPending s"
  by (simp_all add: fetch_defs split: option.splits)

subsection \<open>A create that fails\<close>

lemma add_pending_step:
  "addMutation_isPending s \<Longrightarrow> \<not> settles_create e \<Longrightarrow> addMutation_isPending (fst (step e s))"
  by (cases e) (simp_all add: handler_defs invalidate_frame split: sum.splits)

lemma add_pending_kept:
  "addMutation_isPending s \<Longrightarrow> \<forall>e \<in> set evs. \<not> settles_create e \<Longrightarrow>
   addMutation_isPending (state_after evs s)"
  by (induction evs arbitrary: s)
     (simp_all add: state_after_Nil state_after_Cons add_pending_step)

lemma empty_form_step:
  "newUser s = emptyForm \<Longrightarrow> \<not> fills_form e \<Longrightarrow> newUser (fst (step e s)) = emptyForm"
  by (cases e)
     (simp_all add: handler_defs invalidate_frame split: sum.splits option.splits)

lemma empty_form_kept:
  "newUser s = emptyForm \<Longrightarrow> \<forall>e \<in> set evs. \<not> fills_form e \<Longrightarrow>
   newUser (state_after evs s) = emptyForm"
  by (induction evs arbitrary: s)
     (simp_all add: state_after_Nil state_after_Cons empty_form_step)

lemma users_step:
  "\<not> settles_fetch e \<Longrightarrow> users (fst (step e s)) = users s"
  by (cases e)
     (simp_all add: handler_defs invalidate_frame split: sum.splits option.splits)

lemma users_kept:
  "\<forall>e \<in> set evs. \<not> settles_fetch e \<Longrightarrow> users (state_after evs s) = users s"
  by (induction evs arbitrary: s)
     (simp_all add: state_after_Nil state_after_Cons users_step)

lemma submit_create:
  assumes "\<not> submitting s" and "editingUser s = None"
  shows "state_after [Submit] s = s\<lparr>addMutation_isPending := True, newUser := emptyForm\<rparr>"
    and "requests_of [Submit] s = [addUser_request (newUser s)]"
  using assms by (simp_all add: run_defs handler_defs)

lemma create_fails:
  "addMutation_isPending s \<Longrightarrow>
   state_after [AddSettled (Inl e)] s =
     s\<lparr>addMutation_isPending := False,
       errorMessage := Some (''Qo'' @ okina @ ''shishda xato: '' @ message e)\<rparr>
   \<and> requests_of [AddSettled (Inl e)] s = []"
  by (simp add: run_defs handler_defs)

text \<open>
  C1 (as amended). The claim says that after a failed create the form still holds the
  submitted values. The code clears the form in \<open>handleAddOrUpdate\<close> itself (line 122),
  before the outcome is known, and \<open>onError\<close> does not restore it. What holds, whatever
  happens between the submission and its failure (\<open>evs\<close> is any sequence of events that
  does not settle the create): the submission issues one POST with the content of the
  form and clears the form at once; the failure, when it arrives, issues no request and
  changes nothing but the pending flag and the error message, which becomes the text
  \<open>Qo\<close>, U+2018, \<open>shishda xato: \<close> followed by the failure's message text, shown by the
  banner: the cached list, the rendered rows and the form fields are what they were just
  before the failure. So after the failure the form is empty unless the user has typed or
  chosen a record since submitting, and the cached list is the one at submission unless
  a fetch has settled since.
\<close>

theorem failed_create_keeps_list_and_cleared_form:
  assumes "\<not> submitting s" and "editingUser s = None"
    and "\<forall>ev \<in> set evs. \<not> settles_create ev"
  shows "requests_of [Submit] s = [addUser_request (newUser s)]
    \<and> newUser (state_after [Submit] s) = emptyForm
    \<and> addMutation_isPending (state_after (Submit # evs) s)
    \<and> requests_of [AddSettled (Inl e)] (state_after (Submit # evs) s) = []
    \<and> state_after (Submit # evs @ [AddSettled (Inl e)]) s =
        (state_after (Submit # evs) s)
          \<lparr>addMutation_isPending := False,
           errorMessage := Some (''Qo'' @ okina @ ''shishda xato: '' @ message e)\<rparr>
    \<and> users (state_after (Submit # evs @ [AddSettled (Inl e)]) s) =
        users (state_after (Submit # evs) s)
    \<and> newUser (state_after (Submit # evs @ [AddSettled (Inl e)]) s) =
        newUser (state_after (Submit # evs) s)
    \<and> errorMessage (state_after (Submit # evs @ [AddSettled (Inl e)]) s) =
        Some (''Qo'' @ okina @ ''shishda xato: '' @ message e)
    \<and> ((\<forall>ev \<in> set evs. \<not> fills_form ev) \<longrightarrow>
         newUser (state_after (Submit # evs @ [AddSettled (Inl e)]) s) = emptyForm)
    \<and> ((\<forall>ev \<in> set evs. \<not> settles_fetch ev) \<longrightarrow>
         users (state_after (Submit # evs @ [AddSettled (Inl e)]) s) = users s)
    \<and> (\<forall>v0. render (state_after (Submit # evs) s) = MainView v0 \<longrightarrow>
         (\<exists>v. render (state_after (Submit # evs @ [AddSettled (Inl e)]) s) = MainView v
            \<and> banner v = Some (''Qo'' @ okina @ ''shishda xato: '' @ message e)
            \<and> name_value v = name_value v0 \<and> email_value v = email_value v0
            \<and> rows v = rows v0))"
proof -
  let ?s1 = "state_after [Submit] s"
  let ?s2 = "state_after (Submit # evs) s"
  let ?s3 = "state_after (Submit # evs @ [AddSettled (Inl e)]) s"
  let ?m = "''Qo'' @ okina @ ''shishda xato: '' @ message e"
  note sub = submit_create [OF assms(1,2)]
  have s2: "?s2 = state_after evs ?s1"
    by (simp add: state_after_Cons state_after_Nil)
  have pending: "addMutation_isPending ?s2"
    unfolding s2 using add_pending_kept [of "state_after [Submit] s" evs] assms(3)
    by (simp add: sub)
  have s3: "?s3 = state_after [AddSettled (Inl e)] ?s2"
    using state_after_append [of "Submit # evs" "[AddSettled (Inl e)]" s] by simp
  have fails: "?s3 = ?s2\<lparr>addMutation_isPending := False, errorMessage := Some ?m\<rparr>"
    "requests_of [AddSettled (Inl e)] ?s2 = []"
    using create_fails [OF pending, of e] by (simp_all add: s3)
  have form: "newUser ?s3 = emptyForm" if "\<forall>ev \<in> set evs. \<not> fills_form ev"
    using that by (simp add: fails s2 empty_form_kept sub)
  have list: "users ?s3 = users s" if "\<forall>ev \<in> set evs. \<not> settles_fetch ev"
    using that by (simp add: fails s2 users_kept sub)
  have view: "\<exists>v. render ?s3 = MainView v \<and> banner v = Some ?m
            \<and> name_value v = name_value v0 \<and> email_value v = email_value v0
            \<and> rows v = rows v0"
    if "render ?s2 = MainView v0" for v0
    using that unfolding fails(1)
    by (auto simp add: render_def split: if_splits option.splits)
  have "newUser ?s1 = emptyForm" by (simp add: sub)
  with sub(2) pending fails form list view show ?thesis by simp
qed

theorem failed_create_keeps_list_and_cleared_form_witness:
  "\<not> submitting typed_state \<and> editingUser typed_state = None
   \<and> \<not> settles_create (Delete ''42'' False) \<and> \<not> fills_form (Delete ''42'' False)
   \<and> \<not> settles_fetch (Delete ''42'' False) \<and> \<not> settles_create (ChangeName ''Cy'')
   \<and> newUser typed_state = \<lparr>name = ''Ann'', email = ''ann@x.com''\<rparr>
   \<and> users typed_state = Some [ann, bob]
   \<and> users (state_after [Submit, Delete ''42'' False, AddSettled (Inl network_error)]
        typed_state) = Some [ann, bob]
   \<and> newUser (state_after [Submit, Delete ''42'' False, AddSettled (Inl network_error)]
        typed_state) = emptyForm
   \<and> errorMessage (state_after [Submit, Delete ''42'' False, AddSettled (Inl network_error)]
        typed_state) = Some (''Qo'' @ okina @ ''shishda xato: Network Error'')
   \<and> newUser (state_after [Submit, ChangeName ''Cy''] typed_state)
       = \<lparr>name = ''Cy'', email = ''''\<rparr>
   \<and> newUser (state_after [Submit, ChangeName ''Cy'', AddSettled (Inl network_error)]
        typed_state) = \<lparr>name = ''Cy'', email = ''''\<rparr>"
proof -
  have h: "\<not> submitting typed_state" "editingUser typed_state = None"
    "\<forall>ev \<in> set [Delete ''42'' False]. \<not> settles_create ev"
    "\<forall>ev \<in> set [ChangeName ''Cy'']. \<not> settles_create ev"
    "newUser typed_state = \<lparr>name = ''Ann'', email = ''ann@x.com''\<rparr>"
    "users typed_state = Some [ann, bob]"
    "newUser (state_after [Submit, ChangeName ''Cy''] typed_state)
       = \<lparr>name = ''Cy'', email = ''''\<rparr>"
    by (simp_all add: example_defs run_defs handler_defs)
  have hq: "\<forall>ev \<in> set [Delete ''42'' False]. \<not> fills_form ev"
    "\<forall>ev \<in> set [Delete ''42'' False]. \<not> settles_fetch ev"
    by simp_all
  have quiet: "users (state_after [Submit, Delete ''42'' False, AddSettled (Inl network_error)]
        typed_state) = users typed_state
    \<and> newUser (state_after [Submit, Delete ''42'' False, AddSettled (Inl network_error)]
        typed_state) = emptyForm
    \<and> errorMessage (state_after [Submit, Delete ''42'' False, AddSettled (Inl network_error)]
        typed_state) = Some (''Qo'' @ okina @ ''shishda xato: '' @ message network_error)"
    using failed_create_keeps_list_and_cleared_form
        [OF h(1) h(2) h(3), where e = network_error] hq
    unfolding append.simps by blast
  have typed: "newUser (state_after [Submit, ChangeName ''Cy'', AddSettled (Inl network_error)]
        typed_state) = newUser (state_after [Submit, ChangeName ''Cy''] typed_state)"
    using failed_create_keeps_list_and_cleared_form
        [OF h(1) h(2) h(4), where e = network_error]
    unfolding append.simps by blast
  from h quiet typed show ?thesis by (simp add: network_error_def)
qed

text \<open>
  C1, the claim as stated, fails: the user types Ann and ann@x.com and submits, one POST
  with these values is sent, the transport fails with "Network Error", and the form
  holds two empty strings, not the submitted values.
\<close>

theorem create_failure_form_not_retained:
  "newUser typed_state = \<lparr>name = ''Ann'', email = ''ann@x.com''\<rparr>
   \<and> requests_of [Submit] typed_state
       = [addUser_request \<lparr>name = ''Ann'', email = ''ann@x.com''\<rparr>]
   \<and> newUser (state_after [Submit, AddSettled (Inl network_error)] typed_state)
       = \<lparr>name = '''', email = ''''\<rparr>
   \<and> newUser (state_after [Submit, AddSettled (Inl network_error)] typed_state)
       \<noteq> \<lparr>name = ''Ann'', email = ''ann@x.com''\<rparr>"
  by (simp add: example_defs run_defs handler_defs)

subsection \<open>What a failure displays\<close>

text \<open>
  C5 (as amended). The claim says that the displayed text equals the transport's message
  text. Each \<open>onError\<close> builds the displayed text with a template literal that puts a
  fixed text naming the operation in front of \<open>error.message\<close>. What holds: for every
  failed operation (create, update or delete) the displayed error message is the prefix
  of that operation (\<open>Qo\<close>, U+2018, \<open>shishda xato: \<close> for a create,
  \<open>Yangilashda xato: \<close> for an update, \<open>O\<close>, U+2018, \<open>chirishda xato: \<close> for a
  delete) followed by the transport's message text, unchanged; it is what the banner of
  the main view shows.
\<close>

theorem failure_message_is_prefixed:
  "errorMessage (fst (addMutation_onError e s)) =
      Some (''Qo'' @ okina @ ''shishda xato: '' @ message e)
   \<and> errorMessage (fst (updateMutation_onError e s)) =
      Some (''Yangilashda xato: '' @ message e)
   \<and> errorMessage (fst (deleteMutation_onError e s)) =
      Some (''O'' @ okina @ ''chirishda xato: '' @ message e)
   \<and> (addMutation_isPending s \<longrightarrow>
        errorMessage (state_after [AddSettled (Inl e)] s) =
          Some (''Qo'' @ okina @ ''shishda xato: '' @ message e))
   \<and> (updateMutation_isPending s \<longrightarrow>
        errorMessage (state_after [UpdateSettled (Inl e)] s) =
          Some (''Yangilashda xato: '' @ message e))
   \<and> errorMessage (state_after [DeleteSettled (Inl e)] s) =
        Some (''O'' @ okina @ ''chirishda xato: '' @ message e)
   \<and> (\<not> isLoading s \<and> error s = None \<longrightarrow>
        (\<exists>v. render (fst (addMutation_onError e s)) = MainView v
           \<and> banner v = Some (''Qo'' @ okina @ ''shishda xato: '' @ message e))
      \<and> (\<exists>v. render (fst (updateMutation_onError e s)) = MainView v
           \<and> banner v = Some (''Yangilashda xato: '' @ message e))
      \<and> (\<exists>v. render (fst (deleteMutation_onError e s)) = MainView v
           \<and> banner v = Some (''O'' @ okina @ ''chirishda xato: '' @ message e)))"
proof -
  have state: "errorMessage (fst (addMutation_onError e s)) =
      Some (''Qo'' @ okina @ ''shishda xato: '' @ message e)
   \<and> errorMessage (fst (updateMutation_onError e s)) =
      Some (''Yangilashda xato: '' @ message e)
   \<and> errorMessage (fst (deleteMutation_onError e s)) =
      Some (''O'' @ okina @ ''chirishda xato: '' @ message e)"
    by (simp add: handler_defs)
  have events: "(addMutation_isPending s \<longrightarrow>
        errorMessage (state_after [AddSettled (Inl e)] s) =
          Some (''Qo'' @ okina @ ''shishda xato: '' @ message e))
   \<and> (updateMutation_isPending s \<longrightarrow>
        errorMessage (state_after [UpdateSettled (Inl e)] s) =
          Some (''Yangilashda xato: '' @ message e))
   \<and> errorMessage (state_after [DeleteSettled (Inl e)] s) =
        Some (''O'' @ okina @ ''chirishda xato: '' @ message e)"
    by (simp add: run_defs handler_defs)
  have view: "(\<exists>v. render (fst (addMutation_onError e s)) = MainView v
           \<and> banner v = Some (''Qo'' @ okina @ ''shishda xato: '' @ message e))
      \<and> (\<exists>v. render (fst (updateMutation_onError e s)) = MainView v
           \<and> banner v = Some (''Yangilashda xato: '' @ message e))
      \<and> (\<exists>v. render (fst (deleteMutation_onError e s)) = MainView v
           \<and> banner v = Some (''O'' @ okina @ ''chirishda xato: '' @ message e))"
    if "\<not> isLoading s" "error s = None"
    using that by (simp add: handler_defs render_def)
  from state events view show ?thesis by blast
qed

theorem failure_message_is_prefixed_witness:
  "updateMutation_isPending (state_after [Edit ann, ChangeName ''Anna'', Submit] loaded_state)
   \<and> errorMessage
       (state_after [UpdateSettled (Inl not_found)]
          (state_after [Edit ann, ChangeName ''Anna'', Submit] loaded_state))
     = Some ''Yangilashda xato: Request failed with status code 404''"
proof -
  have h: "updateMutation_isPending
             (state_after [Edit ann, ChangeName ''Anna'', Submit] loaded_state)"
    by (simp add: example_defs run_defs handler_defs)
  show ?thesis
    using h failure_message_is_prefixed
      [of not_found "state_after [Edit ann, ChangeName ''Anna'', Submit] loaded_state"]
    by (simp add: not_found_def)
qed

text \<open>
  C5, the claim as stated, fails: an update is rejected with the message
  "Request failed with status code 404"; the banner shows
  "Yangilashda xato: Request failed with status code 404", which is not the message.
\<close>

theorem update_failure_message_not_verbatim:
  "message not_found = ''Request failed with status code 404''
   \<and> (case render
             (state_after
                [Edit ann, ChangeName ''Anna'', Submit, UpdateSettled (Inl not_found)]
                loaded_state) of
        MainView v \<Rightarrow> banner v | LoadingView \<Rightarrow> None | ErrorView m \<Rightarrow> None)
     = Some ''Yangilashda xato: Request failed with status code 404''
   \<and> errorMessage
       (state_after [Edit ann, ChangeName ''Anna'', Submit, UpdateSettled (Inl not_found)]
          loaded_state)
     = Some ''Yangilashda xato: Request failed with status code 404''
   \<and> errorMessage
       (state_after [Edit ann, ChangeName ''Anna'', Submit, UpdateSettled (Inl not_found)]
          loaded_state)
     \<noteq> Some (message not_found)"
  by (simp add: example_defs run_defs handler_defs render_def)

subsection \<open>The cache holds what a fetch returned\<close>

lemma fetched_Cons_subset: "set (fetched evs) \<subseteq> set (fetched (e # evs))"
proof (cases e)
  case (FetchSettled k r)
  then show ?thesis by (cases r) auto
qed simp_all

lemma users_step_cases:
  "users (fst (step e s)) = users s
   \<or> (\<exists>k d. e = FetchSettled k (Inr d) \<and> users (fst (step e s)) = Some d)"
proof (cases "settles_fetch e")
  case False
  then show ?thesis by (simp add: users_step)
next
  case True
  then obtain k r where e: "e = FetchSettled k r" by (cases e) simp_all
  show ?thesis unfolding e by (cases r) (simp_all add: query_settled_def)
qed

lemma cache_whole:
  "users (state_after evs s) = users s
   \<or> users (state_after evs s) \<in> Some ` set (fetched evs)"
proof (induction evs arbitrary: s)
  case Nil
  show ?case by (simp add: state_after_Nil)
next
  case (Cons e evs)
  let ?s1 = "fst (step e s)"
  from Cons.IH [of ?s1]
  consider "users (state_after evs ?s1) = users ?s1"
    | "users (state_after evs ?s1) \<in> Some ` set (fetched evs)" by blast
  then show ?case
  proof cases
    case 1
    from users_step_cases [of e s] show ?thesis
    proof
      assume "users ?s1 = users s"
      with 1 show ?thesis by (simp add: state_after_Cons)
    next
      assume "\<exists>k d. e = FetchSettled k (Inr d) \<and> users ?s1 = Some d"
      then obtain k d where "e = FetchSettled k (Inr d)" "users ?s1 = Some d" by blast
      with 1 show ?thesis by (simp add: state_after_Cons)
    qed
  next
    case 2
    with fetched_Cons_subset [of evs e] show ?thesis
      by (auto simp add: state_after_Cons)
  qed
qed

lemma refetch_after_success:
  assumes "users s = Some us"
  shows "addMutation_isPending s \<Longrightarrow>
           requests_of [AddSettled (Inr u)] s = [fetchUsers_request]
           \<and> users (state_after [AddSettled (Inr u)] s) = Some us
           \<and> currentFetch (state_after [AddSettled (Inr u)] s) = Some (fetchesStarted s)"
    and "updateMutation_isPending s \<Longrightarrow>
           requests_of [UpdateSettled (Inr u)] s = [fetchUsers_request]
           \<and> users (state_after [UpdateSettled (Inr u)] s) = Some us
           \<and> currentFetch (state_after [UpdateSettled (Inr u)] s) = Some (fetchesStarted s)"
    and "requests_of [DeleteSettled (Inr i)] s = [fetchUsers_request]
           \<and> users (state_after [DeleteSettled (Inr i)] s) = Some us
           \<and> currentFetch (state_after [DeleteSettled (Inr i)] s) = Some (fetchesStarted s)"
  using assms by (simp_all add: run_defs handler_defs fetch_defs split: option.splits)

lemma fetch_answer:
  "currentFetch s = Some k \<Longrightarrow> axios fetchUsers_request = Inr d \<Longrightarrow>
   state_after [FetchSettled k (fetchUsers axios)] s =
     s\<lparr>users := Some d, isLoading := False, error := None, currentFetch := None\<rparr>"
  "currentFetch s \<noteq> Some k \<Longrightarrow> state_after [FetchSettled k r] s = s"
  by (simp_all add: run_defs handler_defs fetchUsers_def)

text \<open>
  C2 (as amended). The claim says that the rendered list always has at most one record
  per identifier and that the cached collection is discarded after a successful mutation.
  The client renders the list a fetch returned as it is, and keeps the cached list in
  place after a success until the refetch resolves. What holds, after any sequence of
  events from any state:
  \<^item> the cached list is a list that one of the fetches returned, whole, or the list the
    run started with: no handler writes the result of a mutation into the cache;
  \<^item> so when each list that the server returns has at most one record per identifier,
    the cached list and the rendered rows have at most one record per identifier;
  \<^item> the answer that \<open>fetchUsers\<close> gets for the fetch the query is waiting for replaces
    the cache as a whole; the answer of a fetch that was superseded changes nothing;
  \<^item> a create, an update or a delete that succeeds once the list is loaded leaves the
    cached list as it is and invalidates the query, which starts one new fetch of the
    full list, the one the query waits for from then on.
\<close>

theorem cache_is_a_fetched_list:
  "(users (state_after evs s) = users s
      \<or> users (state_after evs s) \<in> Some ` set (fetched evs))
   \<and> ((\<forall>d \<in> set (fetched evs). distinct (map id' d))
        \<and> (\<forall>us. users s = Some us \<longrightarrow> distinct (map id' us)) \<longrightarrow>
      (\<forall>us. users (state_after evs s) = Some us \<longrightarrow> distinct (map id' us))
      \<and> (\<forall>v. render (state_after evs s) = MainView v \<longrightarrow>
            distinct (map (\<lambda>r. id' (row_user r)) (rows v))))
   \<and> (currentFetch s = Some k \<and> axios fetchUsers_request = Inr d \<longrightarrow>
        users (state_after [FetchSettled k (fetchUsers axios)] s) = Some d)
   \<and> (currentFetch s \<noteq> Some k \<longrightarrow> state_after [FetchSettled k r] s = s)
   \<and> (users s = Some us \<longrightarrow>
        (addMutation_isPending s \<longrightarrow>
           requests_of [AddSettled (Inr u)] s = [fetchUsers_request]
           \<and> users (state_after [AddSettled (Inr u)] s) = Some us
           \<and> currentFetch (state_after [AddSettled (Inr u)] s) = Some (fetchesStarted s))
      \<and> (updateMutation_isPending s \<longrightarrow>
           requests_of [UpdateSettled (Inr u)] s = [fetchUsers_request]
           \<and> users (state_after [UpdateSettled (Inr u)] s) = Some us
           \<and> currentFetch (state_after [UpdateSettled (Inr u)] s) = Some (fetchesStarted s))
      \<and> requests_of [DeleteSettled (Inr i)] s = [fetchUsers_request]
      \<and> users (state_after [DeleteSettled (Inr i)] s) = Some us
      \<and> currentFetch (state_after [DeleteSettled (Inr i)] s) = Some (fetchesStarted s))"
proof -
  note cache = cache_whole [of evs s]
  have keys: "\<forall>us. users (state_after evs s) = Some us \<longrightarrow> distinct (map id' us)"
    if "\<forall>d \<in> set (fetched evs). distinct (map id' d)"
      and "\<forall>us. users s = Some us \<longrightarrow> distinct (map id' us)"
    using cache that by auto
  have shown: "\<forall>v. render (state_after evs s) = MainView v \<longrightarrow>
            distinct (map (\<lambda>r. id' (row_user r)) (rows v))"
    if "\<forall>us. users (state_after evs s) = Some us \<longrightarrow> distinct (map id' us)"
    using that
    by (auto simp add: render_def comp_def split: if_splits option.splits)
  have answer: "users (state_after [FetchSettled k (fetchUsers axios)] s) = Some d"
    if "currentFetch s = Some k" "axios fetchUsers_request = Inr d"
    using fetch_answer(1) [of s k axios d] that by simp
  have dropped: "state_after [FetchSettled k r] s = s" if "currentFetch s \<noteq> Some k"
    using that by (rule fetch_answer(2))
  have refetch: "(addMutation_isPending s \<longrightarrow>
           requests_of [AddSettled (Inr u)] s = [fetchUsers_request]
           \<and> users (state_after [AddSettled (Inr u)] s) = Some us
           \<and> currentFetch (state_after [AddSettled (Inr u)] s) = Some (fetchesStarted s))
      \<and> (updateMutation_isPending s \<longrightarrow>
           requests_of [UpdateSettled (Inr u)] s = [fetchUsers_request]
           \<and> users (state_after [UpdateSettled (Inr u)] s) = Some us
           \<and> currentFetch (state_after [UpdateSettled (Inr u)] s) = Some (fetchesStarted s))
      \<and> requests_of [DeleteSettled (Inr i)] s = [fetchUsers_request]
      \<and> users (state_after [DeleteSettled (Inr i)] s) = Some us
      \<and> currentFetch (state_after [DeleteSettled (Inr i)] s) = Some (fetchesStarted s)"
    if "users s = Some us"
    using refetch_after_success [OF that] by blast
  from cache keys shown answer dropped refetch show ?thesis by blast
qed

theorem cache_is_a_fetched_list_witness:
  "fetched [FetchSettled 0 (Inr [ann, bob]), Delete ''42'' True, DeleteSettled (Inr ''42''),
            FetchSettled 1 (Inr [ann])] = [[ann, bob], [ann]]
   \<and> distinct (map id' [ann, bob]) \<and> distinct (map id' [ann])
   \<and> users initial_state = None
   \<and> users (state_after
        [FetchSettled 0 (Inr [ann, bob]), Delete ''42'' True, DeleteSettled (Inr ''42''),
         FetchSettled 1 (Inr [ann])] initial_state) = Some [ann]
   \<and> currentFetch initial_state = Some 0 \<and> serves [ann, bob] fetchUsers_request = Inr [ann, bob]
   \<and> users (state_after [FetchSettled 0 (fetchUsers (serves [ann, bob]))] initial_state)
       = Some [ann, bob]
   \<and> currentFetch loaded_state \<noteq> Some 0
   \<and> state_after [FetchSettled 0 (Inr [ann])] loaded_state = loaded_state
   \<and> users resubmitted_state = Some [ann, bob] \<and> addMutation_isPending resubmitted_state
   \<and> requests_of [AddSettled (Inr ann_created)] resubmitted_state = [fetchUsers_request]
   \<and> users (state_after [AddSettled (Inr ann_created)] resubmitted_state) = Some [ann, bob]"
proof -
  have h: "fetched [FetchSettled 0 (Inr [ann, bob]), Delete ''42'' True,
                    DeleteSettled (Inr ''42''), FetchSettled 1 (Inr [ann])]
             = [[ann, bob], [ann]]"
    "distinct (map id' [ann, bob])" "distinct (map id' [ann])" "users initial_state = None"
    "currentFetch initial_state = Some 0"
    "serves [ann, bob] fetchUsers_request = Inr [ann, bob]"
    "currentFetch loaded_state \<noteq> Some 0"
    "users resubmitted_state = Some [ann, bob]" "addMutation_isPending resubmitted_state"
    by (simp_all add: example_defs run_defs handler_defs fetch_defs serves_def
        fetchUsers_request_def)
  have run: "users (state_after
        [FetchSettled 0 (Inr [ann, bob]), Delete ''42'' True, DeleteSettled (Inr ''42''),
         FetchSettled 1 (Inr [ann])] initial_state) = Some [ann]"
    by (simp add: example_defs run_defs handler_defs fetch_defs)
  have applied: "users (state_after [FetchSettled 0 (fetchUsers (serves [ann, bob]))]
        initial_state) = Some [ann, bob]"
    using h(5,6)
      cache_is_a_fetched_list
        [where s = initial_state and k = 0 and axios = "serves [ann, bob]"
           and d = "[ann, bob]"]
    by blast
  have dropped: "state_after [FetchSettled 0 (Inr [ann])] loaded_state = loaded_state"
    using h(7) cache_is_a_fetched_list [where s = loaded_state and k = 0 and r = "Inr [ann]"]
    by blast
  have refetch: "requests_of [AddSettled (Inr ann_created)] resubmitted_state
        = [fetchUsers_request]
      \<and> users (state_after [AddSettled (Inr ann_created)] resubmitted_state)
          = Some [ann, bob]"
    using h(8,9)
      cache_is_a_fetched_list
        [where s = resubmitted_state and us = "[ann, bob]" and u = ann_created]
    by blast
  from h run applied dropped refetch show ?thesis by simp
qed

text \<open>
  C2, the claim as stated, fails. When the GET of the collection answers with two records
  of identifier 1, both are cached and rendered. And after a create has succeeded the
  cached list is not discarded: the rows still show the list from before the submission
  (until the refetch resolves).
\<close>

theorem duplicates_rendered_and_stale_list_kept:
  "users (state_after [FetchSettled 0 (fetchUsers (serves [ann, ann_twin]))] initial_state)
     = Some [ann, ann_twin]
   \<and> (case render
             (state_after [FetchSettled 0 (fetchUsers (serves [ann, ann_twin]))] initial_state)
       of MainView v \<Rightarrow> map (\<lambda>r. id' (row_user r)) (rows v)
        | LoadingView \<Rightarrow> [] | ErrorView m \<Rightarrow> []) = [''1'', ''1'']
   \<and> \<not> distinct [''1'', ''1'']
   \<and> users (state_after [Submit] typed_state) = Some [ann, bob]
   \<and> users (state_after [Submit, AddSettled (Inr ann_created)] typed_state) = Some [ann, bob]
   \<and> (case render (state_after [Submit, AddSettled (Inr ann_created)] typed_state)
       of MainView v \<Rightarrow> map row_user (rows v)
        | LoadingView \<Rightarrow> [] | ErrorView m \<Rightarrow> []) = [ann, bob]"
  by (simp add: example_defs run_defs handler_defs fetch_defs serves_def fetchUsers_def
      fetchUsers_request_def render_def)

subsection \<open>Editing a record\<close>

lemma typing_step:
  "is_typing e \<Longrightarrow>
   editingUser (fst (step e s)) = editingUser s
   \<and> addMutation_isPending (fst (step e s)) = addMutation_isPending s
   \<and> updateMutation_isPending (fst (step e s)) = updateMutation_isPending s"
  by (cases e) (simp_all add: handler_defs)

lemma typing_frame:
  "list_all is_typing ts \<Longrightarrow>
   editingUser (state_after ts s) = editingUser s
   \<and> addMutation_isPending (state_after ts s) = addMutation_isPending s
   \<and> updateMutation_isPending (state_after ts s) = updateMutation_isPending s"
  by (induction ts arbitrary: s)
     (simp_all add: state_after_Nil state_after_Cons typing_step)

lemma submit_while_editing:
  "editingUser s = Some u \<Longrightarrow> \<not> submitting s \<Longrightarrow>
   requests_of [Submit] s =
     [\<lparr>verb = PUT, url = API_URL @ ''/'' @ id' u, body = Some (newUser s)\<rparr>]"
  by (simp add: run_defs handler_defs updateUser_request_def)

text \<open>
  C3. For every record \<open>u\<close>, the edit button puts the record's name and email into the
  form (state and rendered inputs) and makes \<open>u\<close> the editing selection. A submission
  while \<open>u\<close> is the selection issues exactly one request, the PUT to
  \<open>API_URL/<id of u>\<close> whose body is the current content of the form, and no POST; in
  particular after the user has typed anything into the two inputs since choosing \<open>u\<close>.
\<close>

theorem edit_then_submit_issues_update:
  "newUser (state_after [Edit u] s) = \<lparr>name = name u, email = email u\<rparr>
   \<and> editingUser (state_after [Edit u] s) = Some u
   \<and> (\<not> isLoading s \<and> error s = None \<longrightarrow>
        (\<exists>v. render (state_after [Edit u] s) = MainView v
           \<and> name_value v = name u \<and> email_value v = email u))
   \<and> (editingUser s = Some u \<and> \<not> submitting s \<longrightarrow>
        requests_of [Submit] s =
          [\<lparr>verb = PUT, url = API_URL @ ''/'' @ id' u, body = Some (newUser s)\<rparr>])
   \<and> (\<not> submitting s \<and> list_all is_typing ts \<longrightarrow>
        requests_of [Submit] (state_after (Edit u # ts) s) =
          [\<lparr>verb = PUT, url = API_URL @ ''/'' @ id' u,
            body = Some (newUser (state_after (Edit u # ts) s))\<rparr>])"
proof -
  have form: "newUser (state_after [Edit u] s) = \<lparr>name = name u, email = email u\<rparr>
      \<and> editingUser (state_after [Edit u] s) = Some u"
    by (simp add: run_defs handler_defs)
  have view: "\<exists>v. render (state_after [Edit u] s) = MainView v
           \<and> name_value v = name u \<and> email_value v = email u"
    if "\<not> isLoading s" "error s = None"
    using that by (simp add: run_defs handler_defs render_def)
  have typed: "requests_of [Submit] (state_after (Edit u # ts) s) =
          [\<lparr>verb = PUT, url = API_URL @ ''/'' @ id' u,
            body = Some (newUser (state_after (Edit u # ts) s))\<rparr>]"
    if "\<not> submitting s" "list_all is_typing ts"
  proof -
    let ?s1 = "fst (step (Edit u) s)"
    have "editingUser ?s1 = Some u" "\<not> submitting ?s1"
      using that(1) by (simp_all add: submitting_def handler_defs)
    with typing_frame [OF that(2), of ?s1]
    have "editingUser (state_after ts ?s1) = Some u" "\<not> submitting (state_after ts ?s1)"
      by (simp_all add: submitting_def)
    then show ?thesis
      by (simp add: state_after_Cons submit_while_editing)
  qed
  from form view typed submit_while_editing [of s u] show ?thesis by blast
qed

theorem edit_then_submit_issues_update_witness:
  "\<not> submitting loaded_state \<and> list_all is_typing [ChangeName ''Anna'']
   \<and> newUser (state_after [Edit ann] loaded_state)
       = \<lparr>name = ''Ann'', email = ''ann@x.com''\<rparr>
   \<and> requests_of [Submit] (state_after [Edit ann, ChangeName ''Anna''] loaded_state) =
       [\<lparr>verb = PUT, url = ''https://68466fef7dbda7ee7aaf060c.mockapi.io/user/1'',
         body = Some \<lparr>name = ''Anna'', email = ''ann@x.com''\<rparr>\<rparr>]"
proof -
  have h: "\<not> submitting loaded_state" "list_all is_typing [ChangeName ''Anna'']"
    by (simp_all add: example_defs run_defs handler_defs)
  have n: "newUser (state_after [Edit ann, ChangeName ''Anna''] loaded_state)
      = \<lparr>name = ''Anna'', email = ''ann@x.com''\<rparr>"
    by (simp add: example_defs run_defs handler_defs)
  show ?thesis
    using h n edit_then_submit_issues_update [of ann loaded_state "[ChangeName ''Anna'']"]
    by (simp add: ann_def API_URL_def)
qed

subsection \<open>Deleting a record\<close>







text \<open>
  C6. For every id and every state, a delete request whose dialog is not confirmed issues
  no network request and leaves the whole state as it is: the deleting marker, the
  cache, the form, the editing selection and the error message; the view is rendered as
  before.
\<close>

theorem unconfirmed_delete_changes_nothing:
  "state_after [Delete i False] s = s \<and> requests_of [Delete i False] s = []
   \<and> render (state_after [Delete i False] s) = render s"
  by (simp add: run_defs handler_defs)

text \<open>
  C8. For every deletion that fails, in every state, the deleting marker is \<open>null\<close>
  afterwards and the error message is set from the failure; when the main view is
  rendered, its banner shows that message and no delete button is disabled.
\<close>

theorem delete_failure_clears_marker:
  "deletingId (state_after [DeleteSettled (Inl e)] s) = None
   \<and> errorMessage (state_after [DeleteSettled (Inl e)] s) =
       Some (''O'' @ okina @ ''chirishda xato: '' @ message e)
   \<and> (\<forall>v. render (state_after [DeleteSettled (Inl e)] s) = MainView v \<longrightarrow>
         banner v = Some (''O'' @ okina @ ''chirishda xato: '' @ message e)
         \<and> (\<forall>r \<in> set (rows v). \<not> delete_disabled r))"
  by (auto simp add: run_defs handler_defs render_def split: if_splits option.splits)

theorem delete_failure_clears_marker_witness:
  "deletingId (state_after [Delete ''42'' True] loaded_state) = Some ''42''
   \<and> (case render (state_after [Delete ''42'' True] loaded_state) of
        MainView v \<Rightarrow> map delete_disabled (rows v) = [False, True]
      | LoadingView \<Rightarrow> False | ErrorView m \<Rightarrow> False)
   \<and> deletingId
       (state_after [DeleteSettled (Inl network_error)]
          (state_after [Delete ''42'' True] loaded_state)) = None
   \<and> (case render
             (state_after [DeleteSettled (Inl network_error)]
                (state_after [Delete ''42'' True] loaded_state)) of
        MainView v \<Rightarrow>
          map delete_disabled (rows v) = [False, False]
          \<and> banner v = Some (''O'' @ okina @ ''chirishda xato: Network Error'')
      | LoadingView \<Rightarrow> False | ErrorView m \<Rightarrow> False)"
  using delete_failure_clears_marker
    [of network_error "state_after [Delete ''42'' True] loaded_state"]
  by (simp add: example_defs run_defs handler_defs render_def)

text \<open>
  C9. For every id and every transport, \<open>deleteUser\<close> resolves only with the id it was
  called with: it resolves with that id when the DELETE resolves, whatever the response,
  and rejects with the transport's error when the DELETE rejects.
\<close>

theorem deleteUser_returns_its_argument:
  "(\<forall>r. deleteUser axios i = Inr r \<longrightarrow> r = i)
   \<and> (\<forall>d. axios (deleteUser_request i) = Inr d \<longrightarrow> deleteUser axios i = Inr i)
   \<and> (\<forall>e. axios (deleteUser_request i) = Inl e \<longrightarrow> deleteUser axios i = Inl e)"
  by (auto simp add: deleteUser_def split: sum.splits)

theorem deleteUser_returns_its_argument_witness:
  "resolves (deleteUser_request ''42'') = Inr () \<and> deleteUser resolves ''42'' = Inr ''42''"
proof -
  have h: "resolves (deleteUser_request ''42'') = Inr ()"
    by (simp add: resolves_def)
  show ?thesis
    using h deleteUser_returns_its_argument [of resolves "''42''"] by blast
qed

subsection \<open>A success clears the error message\<close>

text \<open>
  C10. Each of the three \<open>onSuccess\<close> callbacks leaves the error message \<open>null\<close>, whatever
  it was before; so does every create or update that settles with success while pending,
  and every deletion that settles with success; the banner of the main view is then
  absent.
\<close>

theorem success_clears_error_message:
  "errorMessage (fst (addMutation_onSuccess s)) = None
   \<and> errorMessage (fst (updateMutation_onSuccess s)) = None
   \<and> errorMessage (fst (deleteMutation_onSuccess s)) = None
   \<and> (addMutation_isPending s \<longrightarrow>
        errorMessage (state_after [AddSettled (Inr u)] s) = None)
   \<and> (updateMutation_isPending s \<longrightarrow>
        errorMessage (state_after [UpdateSettled (Inr u)] s) = None)
   \<and> errorMessage (state_after [DeleteSettled (Inr i)] s) = None
   \<and> (\<forall>v. render (fst (addMutation_onSuccess s)) = MainView v \<longrightarrow> banner v = None)
   \<and> (\<forall>v. render (fst (updateMutation_onSuccess s)) = MainView v \<longrightarrow> banner v = None)
   \<and> (\<forall>v. render (fst (deleteMutation_onSuccess s)) = MainView v \<longrightarrow> banner v = None)"
proof -
  have state: "errorMessage (fst (addMutation_onSuccess s)) = None
      \<and> errorMessage (fst (updateMutation_onSuccess s)) = None
      \<and> errorMessage (fst (deleteMutation_onSuccess s)) = None"
    by (simp add: handler_defs)
  have events: "(addMutation_isPending s \<longrightarrow>
        errorMessage (state_after [AddSettled (Inr u)] s) = None)
   \<and> (updateMutation_isPending s \<longrightarrow>
        errorMessage (state_after [UpdateSettled (Inr u)] s) = None)
   \<and> errorMessage (state_after [DeleteSettled (Inr i)] s) = None"
    by (simp add: run_defs handler_defs)
  have view: "banner v = None" if "render s' = MainView v" "errorMessage s' = None" for s' v
    using that by (auto simp add: render_def split: if_splits option.splits)
  from state events view show ?thesis by blast
qed

theorem success_clears_error_message_witness:
  "errorMessage resubmitted_state = Some (''Qo'' @ okina @ ''shishda xato: Network Error'')
   \<and> addMutation_isPending resubmitted_state
   \<and> errorMessage (state_after [AddSettled (Inr ann_created)] resubmitted_state) = None"
proof -
  have h: "addMutation_isPending resubmitted_state"
    "errorMessage resubmitted_state = Some (''Qo'' @ okina @ ''shishda xato: Network Error'')"
    by (simp_all add: example_defs run_defs handler_defs)
  show ?thesis
    using h success_clears_error_message [of resubmitted_state ann_created]
    by simp
qed

subsection \<open>Submissions and the editing selection\<close>

lemma update_pending_step:
  "updateMutation_isPending s \<Longrightarrow> \<not> settles_update e \<Longrightarrow>
   updateMutation_isPending (fst (step e s))"
  by (cases e) (simp_all add: handler_defs invalidate_frame split: sum.splits)

lemma update_pending_kept:
  "updateMutation_isPending s \<Longrightarrow> \<forall>e \<in> set evs. \<not> settles_update e \<Longrightarrow>
   updateMutation_isPending (state_after evs s)"
  by (induction evs arbitrary: s)
     (simp_all add: state_after_Nil state_after_Cons update_pending_step)

lemma one_pending_step:
  "\<not> (addMutation_isPending s \<and> updateMutation_isPending s) \<Longrightarrow>
   \<not> (addMutation_isPending (fst (step e s)) \<and> updateMutation_isPending (fst (step e s)))"
  by (cases e)
     (auto simp add: handler_defs invalidate_frame split: sum.splits option.splits if_splits)

lemma one_pending_kept:
  "\<not> (addMutation_isPending s \<and> updateMutation_isPending s) \<Longrightarrow>
   \<not> (addMutation_isPending (state_after evs s)
      \<and> updateMutation_isPending (state_after evs s))"
proof (induction evs arbitrary: s)
  case Nil
  then show ?case by (simp add: state_after_Nil)
next
  case (Cons e evs)
  from one_pending_step [OF Cons.prems, of e] show ?case
    unfolding state_after_Cons by (rule Cons.IH)
qed

lemma selection_step_any:
  "\<not> changes_selection e \<Longrightarrow> editingUser (fst (step e s)) = editingUser s"
  by (cases e)
     (auto simp add: handler_defs invalidate_frame split: sum.splits option.splits)

lemma selection_kept_any:
  "\<forall>e \<in> set evs. \<not> changes_selection e \<Longrightarrow>
   editingUser (state_after evs s) = editingUser s"
  by (induction evs arbitrary: s)
     (simp_all add: state_after_Nil state_after_Cons selection_step_any)

lemma selection_step:
  "editingUser s = Some u \<Longrightarrow> \<not> updateMutation_isPending s \<Longrightarrow> \<not> ends_selection e \<Longrightarrow>
   editingUser (fst (step e s)) = Some u \<and> \<not> updateMutation_isPending (fst (step e s))"
  by (cases e)
     (auto simp add: handler_defs invalidate_frame split: sum.splits)

lemma selection_kept:
  "editingUser s = Some u \<Longrightarrow> \<not> updateMutation_isPending s \<Longrightarrow>
   \<forall>e \<in> set evs. \<not> ends_selection e \<Longrightarrow>
   editingUser (state_after evs s) = Some u"
proof (induction evs arbitrary: s)
  case Nil
  then show ?case by (simp add: state_after_Nil)
next
  case (Cons e evs)
  from Cons.prems have "\<not> ends_selection e" by simp
  with Cons.prems(1,2) have
    "editingUser (fst (step e s)) = Some u" "\<not> updateMutation_isPending (fst (step e s))"
    using selection_step by blast+
  moreover from Cons.prems(3) have "\<forall>e \<in> set evs. \<not> ends_selection e" by simp
  ultimately show ?case by (simp add: state_after_Cons Cons.IH)
qed

lemma no_selection_step:
  "editingUser s = None \<Longrightarrow> \<forall>u. e \<noteq> Edit u \<Longrightarrow> editingUser (fst (step e s)) = None"
  by (cases e)
     (simp_all add: handler_defs invalidate_frame split: sum.splits option.splits)

lemma no_selection_kept:
  "editingUser s = None \<Longrightarrow> \<forall>e \<in> set evs. \<forall>u. e \<noteq> Edit u \<Longrightarrow>
   editingUser (state_after evs s) = None"
  by (induction evs arbitrary: s)
     (simp_all add: state_after_Nil state_after_Cons no_selection_step)

lemma create_settles:
  assumes "addMutation_isPending s" and "\<not> updateMutation_isPending s"
  shows "\<not> submitting (state_after [AddSettled r] s)"
    and "deletingId (state_after [AddSettled r] s) = deletingId s"
    and "newUser (state_after [AddSettled r] s) = newUser s"
    and "editingUser (state_after [AddSettled r] s) = editingUser s"
    and "errorMessage (state_after [AddSettled (Inr d)] s) = None"
    and "errorMessage (state_after [AddSettled (Inl e)] s) =
           Some (''Qo'' @ okina @ ''shishda xato: '' @ message e)"
  using assms by (simp_all add: run_defs handler_defs invalidate_frame split: sum.splits)

lemma update_settles:
  assumes "updateMutation_isPending s" and "\<not> addMutation_isPending s"
  shows "\<not> submitting (state_after [UpdateSettled r] s)"
    and "deletingId (state_after [UpdateSettled r] s) = deletingId s"
    and "newUser (state_after [UpdateSettled r] s) = newUser s"
    and "editingUser (state_after [UpdateSettled (Inr d)] s) = None"
    and "editingUser (state_after [UpdateSettled (Inl e)] s) = editingUser s"
    and "errorMessage (state_after [UpdateSettled (Inr d)] s) = None"
    and "errorMessage (state_after [UpdateSettled (Inl e)] s) =
           Some (''Yangilashda xato: '' @ message e)"
  using assms by (simp_all add: run_defs handler_defs invalidate_frame split: sum.splits)

text \<open>
  C7 (as amended). The claim says that on success the form fields are cleared and the
  editing selection is forgotten, and that a selection is remembered until it is cleared
  or submitted. The code clears the form when it is submitted, not when the outcome
  arrives, and lets the user type and choose records while the request is in flight; only
  the success of an update resets the selection. What holds:
  \<^item> a submission moves the view to Submitting and clears the form fields at once; they
    stay empty through every sequence of events without typing and without choosing a
    record, so they are empty at the outcome unless the user has touched the form since;
    at most one submission is pending at any time;
  \<^item> when a create settles, from every state in which it is pending: nothing is submitting
    any more (the view is Idle, if no deletion is marked), the form and the editing
    selection are as they were just before, and on failure the error message is set;
  \<^item> when an update settles, from every state in which it is pending: nothing is submitting
    any more (Idle, if no deletion is marked), the form is as it was just before; on
    failure the error message is set and the selection is kept;
  \<^item> when a submitted update succeeds and no record has been chosen since the submission,
    there is no editing selection afterwards;
  \<^item> while there is no editing selection and no record is chosen, there is none;
  \<^item> an editing selection is kept by every event that is not clearing the form, choosing a
    record, or the success of an update; and a selection made while no update is in flight
    is remembered through every sequence of events in which the user neither clears the
    form, nor submits it, nor chooses a record.
\<close>

theorem submission_outcomes_and_selection:
  "(\<not> submitting s \<longrightarrow>
      submitting (state_after [Submit] s) \<and> newUser (state_after [Submit] s) = emptyForm
      \<and> ((\<forall>ev \<in> set evs. \<not> fills_form ev) \<longrightarrow>
           newUser (state_after (Submit # evs) s) = emptyForm)
      \<and> \<not> (addMutation_isPending (state_after evs s)
           \<and> updateMutation_isPending (state_after evs s)))
   \<and> (addMutation_isPending s \<and> \<not> updateMutation_isPending s \<longrightarrow>
        \<not> submitting (state_after [AddSettled (Inr d)] s)
        \<and> (deletingId s = None \<longrightarrow> idle (state_after [AddSettled (Inr d)] s))
        \<and> newUser (state_after [AddSettled (Inr d)] s) = newUser s
        \<and> editingUser (state_after [AddSettled (Inr d)] s) = editingUser s
        \<and> \<not> submitting (state_after [AddSettled (Inl e)] s)
        \<and> (deletingId s = None \<longrightarrow> idle (state_after [AddSettled (Inl e)] s))
        \<and> errorMessage (state_after [AddSettled (Inl e)] s) =
            Some (''Qo'' @ okina @ ''shishda xato: '' @ message e))
   \<and> (updateMutation_isPending s \<and> \<not> addMutation_isPending s \<longrightarrow>
        \<not> submitting (state_after [UpdateSettled (Inr d)] s)
        \<and> (deletingId s = None \<longrightarrow> idle (state_after [UpdateSettled (Inr d)] s))
        \<and> newUser (state_after [UpdateSettled (Inr d)] s) = newUser s
        \<and> \<not> submitting (state_after [UpdateSettled (Inl e)] s)
        \<and> (deletingId s = None \<longrightarrow> idle (state_after [UpdateSettled (Inl e)] s))
        \<and> errorMessage (state_after [UpdateSettled (Inl e)] s) =
            Some (''Yangilashda xato: '' @ message e)
        \<and> editingUser (state_after [UpdateSettled (Inl e)] s) = editingUser s)
   \<and> (\<not> submitting s \<and> editingUser s = Some u
        \<and> (\<forall>ev \<in> set evs. \<not> settles_update ev \<and> (\<forall>u'. ev \<noteq> Edit u')) \<longrightarrow>
        editingUser (state_after (Submit # evs @ [UpdateSettled (Inr d)]) s) = None)
   \<and> (editingUser s = None \<and> (\<forall>ev \<in> set evs. \<forall>u. ev \<noteq> Edit u) \<longrightarrow>
        editingUser (state_after evs s) = None)
   \<and> (editingUser s = Some u \<and> (\<forall>ev \<in> set evs. \<not> changes_selection ev) \<longrightarrow>
        editingUser (state_after evs s) = Some u)
   \<and> (\<not> updateMutation_isPending s \<and> (\<forall>ev \<in> set evs. \<not> ends_selection ev) \<longrightarrow>
        editingUser (state_after (Edit u # evs) s) = Some u)"
proof -
  have submit: "submitting (state_after [Submit] s)
      \<and> newUser (state_after [Submit] s) = emptyForm
      \<and> ((\<forall>ev \<in> set evs. \<not> fills_form ev) \<longrightarrow>
           newUser (state_after (Submit # evs) s) = emptyForm)
      \<and> \<not> (addMutation_isPending (state_after evs s)
           \<and> updateMutation_isPending (state_after evs s))"
    if "\<not> submitting s"
  proof -
    have cleared: "submitting (state_after [Submit] s)"
      "newUser (state_after [Submit] s) = emptyForm"
      using that by (cases "editingUser s"; simp add: run_defs handler_defs)+
    have "state_after (Submit # evs) s = state_after evs (state_after [Submit] s)"
      by (simp add: state_after_Cons state_after_Nil)
    with cleared(2) have "newUser (state_after (Submit # evs) s) = emptyForm"
      if "\<forall>ev \<in> set evs. \<not> fills_form ev"
      using that by (simp add: empty_form_kept)
    moreover have "\<not> (addMutation_isPending (state_after evs s)
           \<and> updateMutation_isPending (state_after evs s))"
      using \<open>\<not> submitting s\<close> by (intro one_pending_kept) (simp add: submitting_def)
    ultimately show ?thesis using cleared by blast
  qed
  have created: "\<not> submitting (state_after [AddSettled (Inr d)] s)
        \<and> (deletingId s = None \<longrightarrow> idle (state_after [AddSettled (Inr d)] s))
        \<and> newUser (state_after [AddSettled (Inr d)] s) = newUser s
        \<and> editingUser (state_after [AddSettled (Inr d)] s) = editingUser s
        \<and> \<not> submitting (state_after [AddSettled (Inl e)] s)
        \<and> (deletingId s = None \<longrightarrow> idle (state_after [AddSettled (Inl e)] s))
        \<and> errorMessage (state_after [AddSettled (Inl e)] s) =
            Some (''Qo'' @ okina @ ''shishda xato: '' @ message e)"
    if "addMutation_isPending s" "\<not> updateMutation_isPending s"
    using create_settles [OF that] by (simp add: idle_def)
  have updated: "\<not> submitting (state_after [UpdateSettled (Inr d)] s)
        \<and> (deletingId s = None \<longrightarrow> idle (state_after [UpdateSettled (Inr d)] s))
        \<and> newUser (state_after [UpdateSettled (Inr d)] s) = newUser s
        \<and> \<not> submitting (state_after [UpdateSettled (Inl e)] s)
        \<and> (deletingId s = None \<longrightarrow> idle (state_after [UpdateSettled (Inl e)] s))
        \<and> errorMessage (state_after [UpdateSettled (Inl e)] s) =
            Some (''Yangilashda xato: '' @ message e)
        \<and> editingUser (state_after [UpdateSettled (Inl e)] s) = editingUser s"
    if "updateMutation_isPending s" "\<not> addMutation_isPending s"
    using update_settles [OF that] by (simp add: idle_def)
  have forgotten: "editingUser (state_after (Submit # evs @ [UpdateSettled (Inr d)]) s) = None"
    if "\<not> submitting s" "editingUser s = Some u"
      "\<forall>ev \<in> set evs. \<not> settles_update ev \<and> (\<forall>u'. ev \<noteq> Edit u')"
  proof -
    let ?s1 = "state_after [Submit] s"
    let ?s2 = "state_after (Submit # evs) s"
    have s1: "updateMutation_isPending ?s1" "\<not> addMutation_isPending ?s1"
      using that(1,2) by (simp_all add: run_defs handler_defs)
    have s2: "?s2 = state_after evs ?s1"
      by (simp add: state_after_Cons state_after_Nil)
    have "updateMutation_isPending ?s2"
      unfolding s2 using update_pending_kept [of ?s1 evs] s1(1) that(3) by simp
    moreover have "\<not> (addMutation_isPending ?s2 \<and> updateMutation_isPending ?s2)"
      unfolding s2 using one_pending_kept [of ?s1 evs] s1 by simp
    ultimately have "editingUser (state_after [UpdateSettled (Inr d)] ?s2) = None"
      using update_settles(4) [of ?s2 d] by simp
    moreover have "state_after (Submit # evs @ [UpdateSettled (Inr d)]) s
        = state_after [UpdateSettled (Inr d)] ?s2"
      using state_after_append [of "Submit # evs" "[UpdateSettled (Inr d)]" s] by simp
    ultimately show ?thesis by simp
  qed
  have none: "editingUser (state_after evs s) = None"
    if "editingUser s = None" "\<forall>ev \<in> set evs. \<forall>u. ev \<noteq> Edit u"
    using that by (rule no_selection_kept)
  have any: "editingUser (state_after evs s) = Some u"
    if "editingUser s = Some u" "\<forall>ev \<in> set evs. \<not> changes_selection ev"
    using that by (simp add: selection_kept_any)
  have kept: "editingUser (state_after (Edit u # evs) s) = Some u"
    if "\<not> updateMutation_isPending s" "\<forall>ev \<in> set evs. \<not> ends_selection ev"
  proof -
    have "editingUser (fst (step (Edit u) s)) = Some u"
      "\<not> updateMutation_isPending (fst (step (Edit u) s))"
      using that(1) by (simp_all add: handler_defs)
    then show ?thesis
      using that(2) by (simp add: state_after_Cons selection_kept)
  qed
  from submit created updated forgotten none any kept show ?thesis by blast
qed

theorem submission_outcomes_and_selection_witness:
  "\<not> submitting typed_state \<and> \<not> fills_form (AddSettled (Inr ann_created))
   \<and> submitting (state_after [Submit] typed_state)
   \<and> newUser (state_after [Submit, AddSettled (Inr ann_created)] typed_state) = emptyForm
   \<and> addMutation_isPending (state_after [Submit] typed_state)
   \<and> \<not> updateMutation_isPending (state_after [Submit] typed_state)
   \<and> deletingId (state_after [Submit] typed_state) = None
   \<and> idle (state_after [AddSettled (Inr ann_created)] (state_after [Submit] typed_state))
   \<and> idle (state_after [AddSettled (Inl network_error)] (state_after [Submit] typed_state))
   \<and> errorMessage
       (state_after [AddSettled (Inl network_error)] (state_after [Submit] typed_state))
       = Some (''Qo'' @ okina @ ''shishda xato: Network Error'')
   \<and> updateMutation_isPending (state_after [Edit ann, ChangeName ''Anna'', Submit] loaded_state)
   \<and> \<not> addMutation_isPending (state_after [Edit ann, ChangeName ''Anna'', Submit] loaded_state)
   \<and> editingUser (state_after [Edit ann, ChangeName ''Anna'', Submit] loaded_state) = Some ann
   \<and> \<not> submitting (state_after [Edit ann, ChangeName ''Anna''] loaded_state)
   \<and> \<not> settles_update (Delete ''1'' False)
   \<and> editingUser
       (state_after [Submit, Delete ''1'' False, UpdateSettled (Inr anna)]
          (state_after [Edit ann, ChangeName ''Anna''] loaded_state)) = None
   \<and> editingUser
       (state_after [UpdateSettled (Inl not_found)]
          (state_after [Edit ann, ChangeName ''Anna'', Submit] loaded_state)) = Some ann
   \<and> \<not> changes_selection Submit \<and> \<not> changes_selection (UpdateSettled (Inl not_found))
   \<and> editingUser
       (state_after [Submit, UpdateSettled (Inl not_found)]
          (state_after [Edit ann, ChangeName ''Anna''] loaded_state)) = Some ann
   \<and> \<not> updateMutation_isPending loaded_state
   \<and> \<not> ends_selection (ChangeName ''Bobby'') \<and> \<not> ends_selection (Delete ''1'' False)
   \<and> \<not> ends_selection (FetchSettled 0 (Inr [ann, bob]))
   \<and> editingUser
       (state_after
          [Edit bob, ChangeName ''Bobby'', Delete ''1'' False, FetchSettled 0 (Inr [ann, bob])]
          loaded_state) = Some bob"
proof -
  let ?pending = "state_after [Submit] typed_state"
  let ?updating = "state_after [Edit ann, ChangeName ''Anna'', Submit] loaded_state"
  let ?editing = "state_after [Edit ann, ChangeName ''Anna''] loaded_state"
  have h1: "\<not> submitting typed_state"
    "\<forall>ev \<in> set [AddSettled (Inr ann_created)]. \<not> fills_form ev"
    by (simp_all add: example_defs run_defs handler_defs)
  have h2: "addMutation_isPending ?pending" "\<not> updateMutation_isPending ?pending"
    "deletingId ?pending = None"
    by (simp_all add: example_defs run_defs handler_defs)
  have h3: "updateMutation_isPending ?updating" "\<not> addMutation_isPending ?updating"
    "editingUser ?updating = Some ann"
    by (simp_all add: example_defs run_defs handler_defs)
  have h4: "editingUser ?editing = Some ann"
    "\<forall>ev \<in> set [Submit, UpdateSettled (Inl not_found)]. \<not> changes_selection ev"
    by (simp_all add: example_defs run_defs handler_defs)
  have h5: "\<not> updateMutation_isPending loaded_state"
    "\<forall>ev \<in> set [ChangeName ''Bobby'', Delete ''1'' False, FetchSettled 0 (Inr [ann, bob])].
       \<not> ends_selection ev"
    by (simp_all add: example_defs run_defs handler_defs)
  have h6: "\<not> submitting ?editing"
    "\<forall>ev \<in> set [Delete ''1'' False]. \<not> settles_update ev \<and> (\<forall>u'. ev \<noteq> Edit u')"
    by (simp_all add: example_defs run_defs handler_defs)
  have submitted: "submitting ?pending
      \<and> newUser (state_after [Submit, AddSettled (Inr ann_created)] typed_state) = emptyForm"
    using h1 submission_outcomes_and_selection
        [where s = typed_state and evs = "[AddSettled (Inr ann_created)]",
         THEN conjunct1]
    by simp
  have created: "idle (state_after [AddSettled (Inr ann_created)] ?pending)
      \<and> idle (state_after [AddSettled (Inl network_error)] ?pending)
      \<and> errorMessage (state_after [AddSettled (Inl network_error)] ?pending)
          = Some (''Qo'' @ okina @ ''shishda xato: '' @ message network_error)"
    using h2 submission_outcomes_and_selection
        [where s = ?pending and d = ann_created and e = network_error,
         THEN conjunct2, THEN conjunct1]
    by simp
  have updated: "editingUser (state_after [UpdateSettled (Inl not_found)] ?updating)
      = Some ann"
    using h3 submission_outcomes_and_selection
        [where s = ?updating and d = anna and e = not_found,
         THEN conjunct2, THEN conjunct2, THEN conjunct1]
    by simp
  have forgotten: "editingUser
       (state_after [Submit, Delete ''1'' False, UpdateSettled (Inr anna)] ?editing) = None"
    using h4(1) h6 submission_outcomes_and_selection
        [where s = ?editing and u = ann and d = anna and evs = "[Delete ''1'' False]",
         THEN conjunct2, THEN conjunct2, THEN conjunct2, THEN conjunct1]
    by simp
  have survives: "editingUser (state_after [Submit, UpdateSettled (Inl not_found)] ?editing)
      = Some ann"
    using h4 submission_outcomes_and_selection
        [where s = ?editing and u = ann and evs = "[Submit, UpdateSettled (Inl not_found)]",
         THEN conjunct2, THEN conjunct2, THEN conjunct2, THEN conjunct2, THEN conjunct2,
         THEN conjunct1]
    by simp
  have kept: "editingUser
       (state_after
          [Edit bob, ChangeName ''Bobby'', Delete ''1'' False, FetchSettled 0 (Inr [ann, bob])]
          loaded_state) = Some bob"
    using h5 submission_outcomes_and_selection
        [where s = loaded_state and u = bob
           and evs = "[ChangeName ''Bobby'', Delete ''1'' False,
                       FetchSettled 0 (Inr [ann, bob])]",
         THEN conjunct2, THEN conjunct2, THEN conjunct2, THEN conjunct2, THEN conjunct2,
         THEN conjunct2]
    by simp
  from h1 h2 h3 h4 h5 h6 submitted created updated forgotten survives kept show ?thesis
    by (simp add: network_error_def)
qed

text \<open>
  C7, the claim as stated, fails. The user edits Ann, renames her Anna and submits: the
  PUT for record 1 is in flight. The user then chooses Bob: the form holds Bob's name and
  email and Bob is the editing selection. Now the update of record 1 succeeds. The view is
  Idle, but the form fields are not cleared (they hold Bob's values), and the selection of
  Bob, which was neither cleared nor submitted, is forgotten: the next submission is a
  POST that creates a second record with Bob's values. Likewise a record chosen while a
  create is in flight is still the selection after the create has succeeded; and a
  submission that succeeds while a deletion is marked in progress does not leave the view
  Idle.
\<close>

theorem selection_forgotten_by_earlier_update:
  "requests_of [Submit] (state_after [Edit ann, ChangeName ''Anna''] loaded_state)
     = [updateUser_request anna]
   \<and> editingUser (state_after [Edit ann, ChangeName ''Anna'', Submit, Edit bob] loaded_state)
       = Some bob
   \<and> idle (state_after
        [Edit ann, ChangeName ''Anna'', Submit, Edit bob, UpdateSettled (Inr anna)]
        loaded_state)
   \<and> newUser (state_after
        [Edit ann, ChangeName ''Anna'', Submit, Edit bob, UpdateSettled (Inr anna)]
        loaded_state) = \<lparr>name = ''Bob'', email = ''bob@x.com''\<rparr>
   \<and> newUser (state_after
        [Edit ann, ChangeName ''Anna'', Submit, Edit bob, UpdateSettled (Inr anna)]
        loaded_state) \<noteq> emptyForm
   \<and> editingUser (state_after
        [Edit ann, ChangeName ''Anna'', Submit, Edit bob, UpdateSettled (Inr anna)]
        loaded_state) = None
   \<and> requests_of [Submit] (state_after
        [Edit ann, ChangeName ''Anna'', Submit, Edit bob, UpdateSettled (Inr anna)]
        loaded_state) = [addUser_request \<lparr>name = ''Bob'', email = ''bob@x.com''\<rparr>]
   \<and> requests_of [Submit] typed_state
       = [addUser_request \<lparr>name = ''Ann'', email = ''ann@x.com''\<rparr>]
   \<and> editingUser (state_after [Submit, Edit bob, AddSettled (Inr ann_created)] typed_state)
       = Some bob
   \<and> deletingId (state_after [Delete ''42'' True, Submit, AddSettled (Inr ann_created)]
        typed_state) = Some ''42''
   \<and> \<not> idle (state_after [Delete ''42'' True, Submit, AddSettled (Inr ann_created)]
        typed_state)"
  by (simp add: example_defs run_defs handler_defs fetch_defs idle_def)

end
